theory Spec2Isabelle
  imports Main "HOL-Library.Sublist"
begin

section \<open>Strings and values of the menu generator\<close>

text \<open>
  A Python \<^verbatim>\<open>str\<close> is a sequence of Unicode code points, so a string of the
  generator is a list of code points. The digit table, the price pattern and
  \<^verbatim>\<open>str.strip\<close> all work on code points, not on bytes.
\<close>

type_synonym ustring = "nat list"

text \<open>An ASCII literal of the source, as code points.\<close>

definition u :: "string \<Rightarrow> ustring" where
  "u s = map of_char s"

text \<open>
  The characters \<^verbatim>\<open>str.strip()\<close> removes: those for which \<^verbatim>\<open>str.isspace\<close> holds
  (tab to carriage return, the separators U+001C to U+001F, space, U+0085, U+00A0,
  U+1680, U+2000 to U+200A, U+2028, U+2029, U+202F, U+205F, U+3000).
\<close>

definition is_space :: "nat \<Rightarrow> bool" where
  "is_space c =
     ((9 \<le> c \<and> c \<le> 13) \<or> (28 \<le> c \<and> c \<le> 32) \<or> c = 133 \<or> c = 160 \<or> c = 5760 \<or>
      (8192 \<le> c \<and> c \<le> 8202) \<or> c = 8232 \<or> c = 8233 \<or> c = 8239 \<or> c = 8287 \<or>
      c = 12288)"

definition strip :: "ustring \<Rightarrow> ustring" where
  "strip s = rev (dropWhile is_space (rev (dropWhile is_space s)))"

text \<open>
  A value read from the JSON input, as far as \<^verbatim>\<open>str()\<close> tells values apart:
  \<^verbatim>\<open>None\<close>, a boolean, an integer, a string, or a value of another type (a float,
  a list, a dict), which is given by the text \<^verbatim>\<open>str()\<close> returns for it.
\<close>

datatype pyval = PNone | PBool bool | PInt int | PStr ustring | PRepr ustring

fun digits10 :: "nat \<Rightarrow> ustring" where
  "digits10 n = (if n < 10 then [48 + n] else digits10 (n div 10) @ [48 + n mod 10])"

declare digits10.simps [simp del]

definition str_int :: "int \<Rightarrow> ustring" where
  "str_int i = (if i < 0 then 45 # digits10 (nat (- i)) else digits10 (nat i))"

fun py_str :: "pyval \<Rightarrow> ustring" where
  "py_str PNone = u ''None''"
| "py_str (PBool b) = (if b then u ''True'' else u ''False'')"
| "py_str (PInt i) = str_int i"
| "py_str (PStr s) = s"
| "py_str (PRepr r) = r"

text \<open>\<^verbatim>\<open>dict.get(key, default)\<close>: the field is \<open>None\<close> when the key is absent.\<close>

definition get_default :: "'a option \<Rightarrow> 'a \<Rightarrow> 'a" where
  "get_default field dflt = (case field of None \<Rightarrow> dflt | Some v \<Rightarrow> v)"

subsection \<open>to_persian_digits, is_url, norm_text\<close>

text \<open>\<^verbatim>\<open>PERSIAN_DIGITS = str.maketrans("0123456789", "\<dots>")\<close>, the glyphs U+06F0 to U+06F9.\<close>

definition PERSIAN_DIGITS :: "nat \<rightharpoonup> nat" where
  "PERSIAN_DIGITS =
     map_of (zip (u ''0123456789'') [1776, 1777, 1778, 1779, 1780, 1781, 1782, 1783, 1784, 1785])"

text \<open>\<^verbatim>\<open>str.translate\<close>: a character with no entry in the table is kept.\<close>

definition translate :: "ustring \<Rightarrow> (nat \<rightharpoonup> nat) \<Rightarrow> ustring" where
  "translate s tbl = map (\<lambda>c. case tbl c of None \<Rightarrow> c | Some d \<Rightarrow> d) s"

definition to_persian_digits :: "ustring \<Rightarrow> ustring" where
  "to_persian_digits s = translate s PERSIAN_DIGITS"

text \<open>
  One literal character of the pattern \<^verbatim>\<open>^https?://\<close> under \<^verbatim>\<open>re.I\<close>: a lower-case
  letter also matches its upper-case form, and \<^verbatim>\<open>s\<close> also matches U+017F (long s).
\<close>

definition ieq :: "nat \<Rightarrow> nat \<Rightarrow> bool" where
  "ieq p c = (c = p \<or> (97 \<le> p \<and> p \<le> 122 \<and> c + 32 = p) \<or> (p = 115 \<and> c = 383))"

text \<open>Matching a literal at the start of a string; the result is what follows it.\<close>

fun match_lit :: "ustring \<Rightarrow> ustring \<Rightarrow> ustring option" where
  "match_lit [] s = Some s"
| "match_lit (p # ps) [] = None"
| "match_lit (p # ps) (c # cs) = (if ieq p c then match_lit ps cs else None)"

definition is_url :: "ustring \<Rightarrow> bool" where
  "is_url s =
     (case match_lit (u ''http'') (strip s) of
        None \<Rightarrow> False
      | Some r \<Rightarrow>
          (case match_lit (u ''s'') r of
             Some r' \<Rightarrow> match_lit (u ''://'') r' \<noteq> None \<or> match_lit (u ''://'') r \<noteq> None
           | None \<Rightarrow> match_lit (u ''://'') r \<noteq> None))"

definition norm_text :: "pyval \<Rightarrow> ustring" where
  "norm_text x = (if x = PNone then [] else strip (py_str x))"

subsection \<open>fmt_price\<close>

text \<open>The character class \<^verbatim>\<open>[0-9\<dots>,]\<close> of the price pattern: ASCII digits, U+06F0 to U+06F9, comma.\<close>

definition is_price_char :: "nat \<Rightarrow> bool" where
  "is_price_char c = ((48 \<le> c \<and> c \<le> 57) \<or> (1776 \<le> c \<and> c \<le> 1785) \<or> c = 44)"

text \<open>
  \<^verbatim>\<open>re.match(r"^[0-9\<dots>,]+$", p)\<close>: one or more characters of the class up to the end
  of the string, where \<^verbatim>\<open>$\<close> also matches just before a final newline.
\<close>

definition looks_numeric :: "ustring \<Rightarrow> bool" where
  "looks_numeric p =
     (let q = (if p \<noteq> [] \<and> last p = 10 then butlast p else p)
      in q \<noteq> [] \<and> list_all is_price_char q)"

definition fmt_price :: "pyval \<Rightarrow> ustring \<Rightarrow> bool \<Rightarrow> ustring" where
  "fmt_price price currency use_persian_digits =
     (let p = norm_text price in
      if p = [] \<or> p = u ''-'' then u ''-''
      else
        let out = (if looks_numeric p then strip (p @ u '' '' @ currency) else p)
        in if use_persian_digits then to_persian_digits out else out)"

subsection \<open>html.escape\<close>

text \<open>
  \<^verbatim>\<open>html.escape(s)\<close> of the standard library, with its default \<^verbatim>\<open>quote=True\<close>: it
  replaces \<^verbatim>\<open>&\<close> first, then \<^verbatim>\<open><\<close>, \<^verbatim>\<open>>\<close>, the double quote and the apostrophe,
  which is a replacement character by character.
\<close>

definition escape_char :: "nat \<Rightarrow> ustring" where
  \<open>escape_char c =
     (if c = 38 then u ''&amp;''
      else if c = 60 then u ''&lt;''
      else if c = 62 then u ''&gt;''
      else if c = 34 then u ''&quot;''
      else if c = 39 then u ''&#x27;''
      else [c])\<close>

definition escape :: "ustring \<Rightarrow> ustring" where
  "escape s = concat (map escape_char s)"

section \<open>The input document\<close>

text \<open>
  The input is the dictionary \<^verbatim>\<open>json.load\<close> returns, in the shape \<^verbatim>\<open>render_html\<close>
  reads it: every text field is looked up with \<^verbatim>\<open>.get(key, default)\<close>, so a field is
  \<open>None\<close> when its key is absent and \<open>Some v\<close> when the key holds \<open>v\<close> (which may be
  \<^verbatim>\<open>null\<close>, that is \<open>Some PNone\<close>). An absent \<^verbatim>\<open>"cafe"\<close> is the empty dictionary (a
  record of absent fields), an absent \<^verbatim>\<open>"menu"\<close> or \<^verbatim>\<open>"items"\<close> is the empty list.
\<close>

record cafe =
  c_name :: "pyval option"
  c_subtitle :: "pyval option"
  c_address :: "pyval option"
  c_phone :: "pyval option"
  c_instagram :: "pyval option"
  c_telegram :: "pyval option"
  c_whatsapp :: "pyval option"
  c_maps :: "pyval option"
  c_currency :: "pyval option"

record item =
  it_name :: "pyval option"
  it_desc :: "pyval option"
  it_price :: "pyval option"
  it_img :: "pyval option"
  it_icon :: "pyval option"

record category =
  cat_title :: "pyval option"
  cat_hint :: "pyval option"
  cat_items :: "item list"

record menu_data =
  d_cafe :: cafe
  d_menu :: "category list"

section \<open>render_html\<close>

subsection \<open>Literals of the source\<close>

text \<open>The default texts of the source, by code point.\<close>

definition default_cafe_name :: ustring where
  "default_cafe_name = [1705, 1575, 1601, 1607]"

definition default_currency :: ustring where
  "default_currency = [1607, 1586, 1575, 1585] @ u '' '' @ [1578, 1608, 1605, 1575, 1606]"

text \<open>The default title of the category at position \<open>idx\<close>: the word for category, a space, \<open>idx\<close>.\<close>

definition default_title :: "nat \<Rightarrow> ustring" where
  "default_title idx = [1583, 1587, 1578, 1607] @ u '' '' @ digits10 idx"

definition default_item_name :: ustring where
  "default_item_name = [1576, 1583, 1608, 1606] @ u '' '' @ [1606, 1575, 1605]"

definition default_icon :: ustring where
  "default_icon = [9749]"

text \<open>The card of a category with no item: it carries the message that no item is registered yet.\<close>

definition empty_grid_card :: ustring where
  \<open>empty_grid_card =
     u ''<div class="item"><div class="meta"><div class="desc">'' @
     [1601, 1593, 1604, 1575, 1611] @ u '' '' @ [1570, 1740, 1578, 1605, 1740] @ u '' '' @
     [1579, 1576, 1578] @ u '' '' @ [1606, 1588, 1583, 1607] @ u ''.</div></div></div>''\<close>

definition address_prompt :: ustring where
  "address_prompt =
     [1570, 1583, 1585, 1587] @ u '' '' @ [1585, 1575] @ u '' '' @ [1583, 1585] @ u '' '' @
     [1608, 1585, 1608, 1583, 1740] @ u '' '' @ [1608, 1575, 1585, 1583] @ u '' '' @
     [1705, 1606, 1740, 1583]"

definition phone_row_open :: ustring where
  \<open>phone_row_open = u ''<div class="row"><b>'' @ [1578, 1604, 1601, 1606] @ u '':</b> ''\<close>

definition phone_prompt_row :: ustring where
  \<open>phone_prompt_row =
     u ''<div class="row">'' @ [1578, 1604, 1601, 1606] @ u '' '' @ [1585, 1575] @ u '' '' @
     [1583, 1585] @ u '' '' @ [1608, 1585, 1608, 1583, 1740] @ u '' '' @
     [1608, 1575, 1585, 1583] @ u '' '' @ [1705, 1606, 1740, 1583] @ u ''.</div>''\<close>

definition label_instagram :: ustring where
  "label_instagram = [1575, 1740, 1606, 1587, 1578, 1575, 1711, 1585, 1575, 1605]"

definition label_telegram :: ustring where
  "label_telegram = [1578, 1604, 1711, 1585, 1575, 1605]"

definition label_whatsapp :: ustring where
  "label_whatsapp = [1608, 1575, 1578, 1587, 8204, 1575, 1662]"

definition label_maps :: ustring where
  "label_maps = [1606, 1602, 1588, 1607]"

text \<open>
  The literal parts of the three templates, in the order of the source: \<open>card_t\<close> of an
  item card, \<open>section_t\<close> of a category section, \<open>html_t\<close> of the document. A part ends
  where the template interpolates a value.
\<close>

definition card_t0 :: ustring where
  \<open>card_t0 =
     [10] @
     u ''                <div class="item">'' @ [10] @
     u ''                  ''\<close>

definition card_t1 :: ustring where
  \<open>card_t1 =
     [10] @
     u ''                  <div class="meta">'' @ [10] @
     u ''                    <div class="name">'' @ [10] @
     u ''                      <h4>''\<close>

definition card_t2 :: ustring where
  \<open>card_t2 =
     u ''</h4>'' @ [10] @
     u ''                      <div class="price">''\<close>

definition card_t3 :: ustring where
  \<open>card_t3 =
     u ''</div>'' @ [10] @
     u ''                    </div>'' @ [10] @
     u ''                    ''\<close>

definition card_t4 :: ustring where
  \<open>card_t4 =
     [10] @
     u ''                  </div>'' @ [10] @
     u ''                </div>'' @ [10] @
     u ''                ''\<close>

definition section_t0 :: ustring where
  \<open>section_t0 =
     [10] @
     u ''            <section class="section" id="''\<close>

definition section_t1 :: ustring where
  \<open>section_t1 =
     u ''">'' @ [10] @
     u ''              <div class="section-title">'' @ [10] @
     u ''                <h2>''\<close>

definition section_t2 :: ustring where
  \<open>section_t2 =
     u ''</h2>'' @ [10] @
     u ''                <div class="hint">''\<close>

definition section_t3 :: ustring where
  \<open>section_t3 =
     u ''</div>'' @ [10] @
     u ''              </div>'' @ [10] @
     u ''              <div class="grid">'' @ [10] @
     u ''                ''\<close>

definition section_t4 :: ustring where
  \<open>section_t4 =
     [10] @
     u ''              </div>'' @ [10] @
     u ''            </section>'' @ [10] @
     u ''            ''\<close>

definition html_t0 :: ustring where
  \<open>html_t0 =
     u ''<!doctype html>'' @ [10] @
     u ''<html lang="fa" dir="rtl">'' @ [10] @
     u ''<head>'' @ [10] @
     u ''  <meta charset="utf-8" />'' @ [10] @
     u ''  <meta name="viewport" content="width=device-width,initial-scale=1" />'' @ [10] @
     u ''  <meta name="color-scheme" content="dark" />'' @ [10] @
     u ''  <title>''\<close>

definition html_t1 :: ustring where
  \<open>html_t1 =
     u '' | ''\<close>

definition html_t2 :: ustring where
  \<open>html_t2 =
     u ''</title>'' @ [10] @
     [10] @
     u ''  <!-- Persian font -->'' @ [10] @
     u ''  <link rel="preconnect" href="https://fonts.googleapis.com">'' @ [10] @
     u ''  <link rel="preconnect" href="https://fonts.gstatic.com" crossorigin>'' @ [10] @
     u ''  <link href="https://fonts.googleapis.com/css2?family=Vazirmatn:wght@300;400;600;700&display=swap" rel="stylesheet">'' @ [10] @
     [10] @
     u ''  <link rel="stylesheet" href="style.css" />'' @ [10] @
     u ''</head>'' @ [10] @
     [10] @
     u ''<body>'' @ [10] @
     u ''  <div class="container">'' @ [10] @
     u ''    <div class="topbar">'' @ [10] @
     u ''      <div class="badge">'' @ [128205] @ u '' <span>''\<close>

definition html_t3 :: ustring where
  \<open>html_t3 =
     u ''</span></div>'' @ [10] @
     u ''      <a class="badge" href="#cat-1">'' @ [129534] @ u '' <span>''\<close>

definition html_t4 :: ustring where
  \<open>html_t4 =
     u ''</span></a>'' @ [10] @
     u ''    </div>'' @ [10] @
     [10] @
     u ''    <div class="brand">'' @ [10] @
     u ''      <h1>''\<close>

definition html_t5 :: ustring where
  \<open>html_t5 =
     u ''</h1>'' @ [10] @
     u ''      <div class="subtitle">''\<close>

definition html_t6 :: ustring where
  \<open>html_t6 =
     u ''</div>'' @ [10] @
     u ''    </div>'' @ [10] @
     [10] @
     u ''    <div class="hero">'' @ [10] @
     u ''      <div class="hero-inner">'' @ [10] @
     u ''        <div>'' @ [10] @
     u ''          <div class="pill">'' @ [1583, 1587, 1578, 1607, 8204, 1607, 1575] @ u ''</div>'' @ [10] @
     u ''          <div style="height:10px"></div>'' @ [10] @
     u ''          <div style="display:flex;flex-wrap:wrap;gap:10px">'' @ [10] @
     u ''            ''\<close>

definition html_t7 :: ustring where
  \<open>html_t7 =
     [10] @
     u ''          </div>'' @ [10] @
     u ''        </div>'' @ [10] @
     [10] @
     u ''        <div class="info">'' @ [10] @
     u ''          <h3>'' @ [1575, 1591, 1604, 1575, 1593, 1575, 1578] @ u '' '' @ [1578, 1605, 1575, 1587] @ u ''</h3>'' @ [10] @
     u ''          ''\<close>

definition html_t8 :: ustring where
  \<open>html_t8 =
     [10] @
     u ''          ''\<close>

definition html_t9 :: ustring where
  \<open>html_t9 =
     [10] @
     u ''          ''\<close>

definition html_t10 :: ustring where
  \<open>html_t10 =
     [10] @
     u ''          ''\<close>

definition html_t11 :: ustring where
  \<open>html_t11 =
     [10] @
     u ''          ''\<close>

definition html_t12 :: ustring where
  \<open>html_t12 =
     [10] @
     u ''        </div>'' @ [10] @
     u ''      </div>'' @ [10] @
     [10] @
     u ''      <div class="quicklinks">'' @ [10] @
     u ''        <span class="pill">'' @ [1608, 1575, 1581, 1583] @ u '' '' @ [1602, 1740, 1605, 1578] @ u '': <strong>''\<close>

definition html_t13 :: ustring where
  \<open>html_t13 =
     u ''</strong></span>'' @ [10] @
     u ''        <span class="pill">'' @ [1606, 1605, 1575, 1740, 1588] @ u '': <strong>RTL</strong></span>'' @ [10] @
     u ''      </div>'' @ [10] @
     u ''    </div>'' @ [10] @
     [10] @
     u ''    ''\<close>

definition html_t14 :: ustring where
  \<open>html_t14 =
     [10] @
     [10] @
     u ''    <div class="footer">'' @ [10] @
     u ''      '' @ [1587, 1575, 1582, 1578, 1607, 8204, 1588, 1583, 1607] @ u '' '' @ [1576, 1575] @ u '' '' @ [1688, 1606, 1585, 1575, 1578, 1608, 1585] @ u '' '' @ [1662, 1575, 1740, 1578, 1608, 1606] @ u '' '' @ [8226] @ u '' ''\<close>

definition html_t15 :: ustring where
  \<open>html_t15 =
     [10] @
     u ''    </div>'' @ [10] @
     u ''  </div>'' @ [10] @
     u ''</body>'' @ [10] @
     u ''</html>'' @ [10]\<close>

subsection \<open>The fragments\<close>

text \<open>\<^verbatim>\<open>"sep".join(parts)\<close>.\<close>

fun join :: "ustring \<Rightarrow> ustring list \<Rightarrow> ustring" where
  "join sep [] = []"
| "join sep [x] = x"
| "join sep (x # y # ys) = x @ sep @ join sep (y # ys)"

text \<open>The nested function \<^verbatim>\<open>link_or_text(label, val)\<close>.\<close>

definition link_or_text :: "ustring \<Rightarrow> ustring \<Rightarrow> ustring" where
  \<open>link_or_text label val =
     (if val = [] then []
      else
        let txt = escape val in
        if is_url val then
          u ''<div class="row"><b>'' @ escape label @ u '':</b> <a href="'' @ escape val @
          u ''" target="_blank" rel="noopener">'' @ txt @ u ''</a></div>''
        else u ''<div class="row"><b>'' @ escape label @ u '':</b> '' @ txt @ u ''</div>'')\<close>

text \<open>\<^verbatim>\<open>anchor = f"cat-{idx}"\<close>.\<close>

definition anchor_of :: "nat \<Rightarrow> ustring" where
  "anchor_of idx = u ''cat-'' @ digits10 idx"

text \<open>The body of the first loop: the quick-navigation pill of one category.\<close>

definition cat_pill :: "nat \<Rightarrow> category \<Rightarrow> ustring" where
  \<open>cat_pill idx cat =
     (let title = norm_text (get_default (cat_title cat) (PStr (default_title idx)));
          anchor = anchor_of idx
      in u ''<a class="pill" href="#'' @ anchor @ u ''"><strong>'' @ escape title @
         u ''</strong></a>'')\<close>

text \<open>
  \<^verbatim>\<open>for idx, cat in enumerate(menu, start=1): cat_pills.append(...)\<close>: the loop carries
  the index and the list built so far.
\<close>

fun cat_pills_loop :: "nat \<Rightarrow> category list \<Rightarrow> ustring list \<Rightarrow> ustring list" where
  "cat_pills_loop idx [] cat_pills = cat_pills"
| "cat_pills_loop idx (cat # rest) cat_pills =
     cat_pills_loop (Suc idx) rest (cat_pills @ [cat_pill idx cat])"

text \<open>The body of the loop over the items of a category: one card.\<close>

definition render_card :: "item \<Rightarrow> ustring \<Rightarrow> bool \<Rightarrow> ustring" where
  \<open>render_card it currency use_persian_digits =
     (let name0 = escape (norm_text (get_default (it_name it) (PStr [])));
          name = (if name0 \<noteq> [] then name0 else default_item_name);
          desc = escape (norm_text (get_default (it_desc it) (PStr [])));
          price = fmt_price (get_default (it_price it) (PStr [])) currency use_persian_digits;
          price_html = escape price;
          img = norm_text (get_default (it_img it) (PStr []));
          thumb =
            (if img \<noteq> [] \<and> is_url img then
               u ''<div class="thumb"><img src="'' @ escape img @ u ''" alt="'' @ name @
               u ''"></div>''
             else
               let icon = escape (norm_text (get_default (it_icon it) (PStr default_icon)))
               in u ''<div class="thumb">'' @ icon @ u ''</div>'');
          desc_html = (if desc \<noteq> [] then u ''<div class="desc">'' @ desc @ u ''</div>'' else [])
      in strip (card_t0 @ thumb @ card_t1 @ name @ card_t2 @ price_html @ card_t3 @
                desc_html @ card_t4))\<close>

text \<open>\<^verbatim>\<open>grid = "\n".join(cards) if cards else '<div class="item">...'\<close>.\<close>

definition grid_of :: "ustring list \<Rightarrow> ustring" where
  "grid_of cards = (if cards \<noteq> [] then join [10] cards else empty_grid_card)"

text \<open>The body of the second loop: the section of one category.\<close>

definition render_section :: "nat \<Rightarrow> category \<Rightarrow> ustring \<Rightarrow> bool \<Rightarrow> ustring" where
  "render_section idx cat currency use_persian_digits =
     (let title = escape (norm_text (get_default (cat_title cat) (PStr (default_title idx))));
          hint = escape (norm_text (get_default (cat_hint cat) (PStr [])));
          anchor = anchor_of idx;
          items = cat_items cat;
          cards = map (\<lambda>it. render_card it currency use_persian_digits) items;
          grid = grid_of cards
      in strip (section_t0 @ anchor @ section_t1 @ title @ section_t2 @ hint @ section_t3 @
                grid @ section_t4))"

fun sections_loop ::
  "nat \<Rightarrow> category list \<Rightarrow> ustring \<Rightarrow> bool \<Rightarrow> ustring list \<Rightarrow> ustring list" where
  "sections_loop idx [] currency use_persian_digits sections_html = sections_html"
| "sections_loop idx (cat # rest) currency use_persian_digits sections_html =
     sections_loop (Suc idx) rest currency use_persian_digits
       (sections_html @ [render_section idx cat currency use_persian_digits])"

text \<open>
  The text of the address badge, \<^verbatim>\<open>escape(address) if address else "..."\<close>, where
  \<^verbatim>\<open>address\<close> is already escaped.
\<close>

definition address_badge :: "ustring \<Rightarrow> ustring" where
  "address_badge address = (if address \<noteq> [] then escape address else address_prompt)"

text \<open>
  The phone row of the contact block, where \<^verbatim>\<open>phone\<close> is already escaped and
  \<^verbatim>\<open>phone_disp\<close> is \<^verbatim>\<open>phone\<close>, in Persian digits when asked for.
\<close>

definition phone_row :: "ustring \<Rightarrow> ustring \<Rightarrow> ustring" where
  \<open>phone_row phone phone_disp =
     (if phone \<noteq> [] then phone_row_open @ escape phone_disp @ u ''</div>''
      else phone_prompt_row)\<close>

text \<open>
  The currency label, \<^verbatim>\<open>norm_text(cafe.get("currency", "...")) or "..."\<close>: the default
  label stands in for an absent key and for an empty text alike.
\<close>

definition currency_of :: "cafe \<Rightarrow> ustring" where
  "currency_of cafe =
     (let currency = norm_text (get_default (c_currency cafe) (PStr default_currency))
      in if currency \<noteq> [] then currency else default_currency)"

subsection \<open>The document\<close>

text \<open>
  \<^verbatim>\<open>render_html(data, page_title, use_persian_digits)\<close>. The source reads the clock
  (\<^verbatim>\<open>datetime.now().strftime("%Y-%m-%d %H:%M")\<close>); here the text it gets is the
  argument \<open>generated_at\<close>.
\<close>

definition render_html :: "menu_data \<Rightarrow> ustring \<Rightarrow> bool \<Rightarrow> ustring \<Rightarrow> ustring" where
  "render_html data page_title use_persian_digits generated_at =
     (let cafe = d_cafe data;
          menu = d_menu data;
          cafe_name = escape (norm_text (get_default (c_name cafe) (PStr default_cafe_name)));
          subtitle = escape (norm_text (get_default (c_subtitle cafe) (PStr [])));
          address = escape (norm_text (get_default (c_address cafe) (PStr [])));
          phone = escape (norm_text (get_default (c_phone cafe) (PStr [])));
          instagram = norm_text (get_default (c_instagram cafe) (PStr []));
          telegram = norm_text (get_default (c_telegram cafe) (PStr []));
          whatsapp = norm_text (get_default (c_whatsapp cafe) (PStr []));
          maps = norm_text (get_default (c_maps cafe) (PStr []));
          currency = currency_of cafe;
          cat_pills = cat_pills_loop 1 menu [];
          cat_pills_html = join [10] cat_pills;
          sections_html = sections_loop 1 menu currency use_persian_digits [];
          sections = join [10, 10] sections_html;
          phone_disp =
            (if use_persian_digits \<and> phone \<noteq> [] then to_persian_digits phone else phone)
      in html_t0 @ escape page_title @ html_t1 @ cafe_name @ html_t2 @
         address_badge address @ html_t3 @ escape page_title @ html_t4 @ cafe_name @
         html_t5 @ subtitle @ html_t6 @ cat_pills_html @ html_t7 @
         phone_row phone phone_disp @ html_t8 @
         link_or_text label_instagram instagram @ html_t9 @
         link_or_text label_telegram telegram @ html_t10 @
         link_or_text label_whatsapp whatsapp @ html_t11 @
         link_or_text label_maps maps @ html_t12 @ escape currency @ html_t13 @
         sections @ html_t14 @ escape generated_at @ html_t15)"

section \<open>Notions the properties are stated with\<close>

text \<open>
  The characters that delimit markup: \<^verbatim>\<open><\<close>, \<^verbatim>\<open>>\<close>, the double quote and the apostrophe.
  \<open>markup_of s\<close> is what is left of \<open>s\<close> when every other character is deleted.
\<close>

definition is_markup :: "nat \<Rightarrow> bool" where
  "is_markup c = (c = 60 \<or> c = 62 \<or> c = 34 \<or> c = 39)"

definition markup_of :: "ustring \<Rightarrow> ustring" where
  "markup_of s = filter is_markup s"

text \<open>The number of places at which a non-empty text \<open>p\<close> occurs in a text.\<close>

fun occurrences :: "ustring \<Rightarrow> ustring \<Rightarrow> nat" where
  "occurrences p [] = 0"
| "occurrences p (c # cs) = (if prefix p (c # cs) then 1 else 0) + occurrences p cs"

text \<open>
  The names \<^verbatim>\<open>html.escape\<close> writes after an ampersand, and the one ampersand of the
  document template itself (in the address of the font), by what follows it.
\<close>

definition entity_names :: "ustring list" where
  "entity_names = [u ''amp;'', u ''lt;'', u ''gt;'', u ''quot;'', u ''#x27;'']"

definition template_amp :: ustring where
  "template_amp = u ''display=swap''"

text \<open>Every ampersand of a text starts an entity of \<^verbatim>\<open>html.escape\<close> or is the template's.\<close>

fun amp_ok :: "ustring \<Rightarrow> bool" where
  "amp_ok [] = True"
| "amp_ok (c # cs) =
     ((if c = 38 then list_ex (\<lambda>e. prefix e cs) (template_amp # entity_names) else True) \<and>
      amp_ok cs)"

text \<open>
  What of a normalised text decides a branch of \<^verbatim>\<open>render_html\<close>: whether it is empty,
  and whether it is a URL. \<open>kind_of\<close> replaces a text by a fixed text of the same kind.
\<close>

definition kind_of :: "ustring \<Rightarrow> ustring" where
  "kind_of s = (if s = [] then [] else if is_url s then u ''http://'' else u ''x'')"

definition blank_field :: "pyval option \<Rightarrow> pyval option" where
  "blank_field v = Some (PStr (kind_of (norm_text (get_default v (PStr [])))))"

text \<open>
  The document with every text taken out: a field that decides a branch (the phone, the
  four links, the image and the description of an item) keeps its kind only, every other
  field is absent.
\<close>

definition blank_item :: "item \<Rightarrow> item" where
  "blank_item it =
     \<lparr>it_name = None, it_desc = blank_field (it_desc it), it_price = None,
      it_img = blank_field (it_img it), it_icon = None\<rparr>"

definition blank_category :: "category \<Rightarrow> category" where
  "blank_category cat =
     \<lparr>cat_title = None, cat_hint = None, cat_items = map blank_item (cat_items cat)\<rparr>"

definition blank_cafe :: "cafe \<Rightarrow> cafe" where
  "blank_cafe c =
     \<lparr>c_name = None, c_subtitle = None, c_address = None, c_phone = blank_field (c_phone c),
      c_instagram = blank_field (c_instagram c), c_telegram = blank_field (c_telegram c),
      c_whatsapp = blank_field (c_whatsapp c), c_maps = blank_field (c_maps c),
      c_currency = None\<rparr>"

definition blank_data :: "menu_data \<Rightarrow> menu_data" where
  "blank_data data =
     \<lparr>d_cafe = blank_cafe (d_cafe data), d_menu = map blank_category (d_menu data)\<rparr>"

section \<open>Properties\<close>

subsection \<open>Trimming and the digit table\<close>

lemma strip_Nil [simp]: "strip [] = []" by (simp add: strip_def)

lemma strip_id:
  assumes "s \<noteq> []" "\<not> is_space (hd s)" "\<not> is_space (last s)"
  shows "strip s = s"
proof -
  from assms(1,2) have a: "dropWhile is_space s = s" by (cases s) auto
  from assms(1,3) have b: "dropWhile is_space (rev s) = rev s"
    by (cases "rev s") (auto simp: last_rev hd_rev dest: arg_cong [where f = hd])
  show ?thesis by (simp add: strip_def a b)
qed

lemma strip_ends:
  assumes "strip s \<noteq> []"
  shows "\<not> is_space (hd (strip s))" and "\<not> is_space (last (strip s))"
proof -
  let ?d = "dropWhile is_space s"
  let ?r = "dropWhile is_space (rev ?d)"
  from assms have r: "?r \<noteq> []" by (simp add: strip_def)
  then have l: "\<not> is_space (hd ?r)" by (rule hd_dropWhile)
  have "last (strip s) = hd ?r" using r by (simp add: strip_def last_rev)
  with l show "\<not> is_space (last (strip s))" by simp
  from r have d: "?d \<noteq> []" by (cases "?d = []") simp_all
  then have hd: "\<not> is_space (hd ?d)" by (rule hd_dropWhile)
  obtain ys where ys: "rev ?d = takeWhile is_space (rev ?d) @ ?r" by simp
  have "?d = rev ?r @ rev (takeWhile is_space (rev ?d))"
    by (metis rev_append rev_rev_ident takeWhile_dropWhile_id)
  then have "hd ?d = hd (rev ?r)" using r by (metis hd_append2 rev_is_Nil_conv)
  with hd show "\<not> is_space (hd (strip s))" by (simp add: strip_def)
qed

lemma strip_strip [simp]: "strip (strip s) = strip s"
proof (cases "strip s = []")
  case True then show ?thesis by simp
next
  case False then show ?thesis by (intro strip_id strip_ends)
qed

lemma PERSIAN_DIGITS_eq:
  "PERSIAN_DIGITS c = (if 48 \<le> c \<and> c \<le> 57 then Some (c + 1728) else None)"
proof -
  have "48 \<le> c \<and> c \<le> 57 \<longleftrightarrow> c \<in> {48, 49, 50, 51, 52, 53, 54, 55, 56, 57}"
    by (simp del: One_nat_def) arith
  then show ?thesis by (auto simp: PERSIAN_DIGITS_def u_def)
qed

lemma to_persian_digits_map:
  "to_persian_digits s = map (\<lambda>c. if 48 \<le> c \<and> c \<le> 57 then c + 1728 else c) s"
  by (simp add: to_persian_digits_def translate_def PERSIAN_DIGITS_eq)

lemma to_persian_digits_append:
  "to_persian_digits (a @ b) = to_persian_digits a @ to_persian_digits b"
  by (simp add: to_persian_digits_map)

lemma to_persian_digits_no_digit:
  "\<forall>x\<in>set s. \<not> (48 \<le> x \<and> x \<le> 57) \<Longrightarrow> to_persian_digits s = s"
  by (simp add: to_persian_digits_map map_idI)

lemma norm_text_strip [simp]: "strip (norm_text x) = norm_text x"
  by (simp add: norm_text_def)

lemma price_char_not_space: "is_price_char c \<Longrightarrow> \<not> is_space c"
  by (auto simp: is_price_char_def is_space_def)

lemma looks_numeric_norm:
  "looks_numeric (norm_text x) \<longleftrightarrow> norm_text x \<noteq> [] \<and> (\<forall>c\<in>set (norm_text x). is_price_char c)"
proof (cases "norm_text x = []")
  case True then show ?thesis by (simp add: looks_numeric_def)
next
  case False
  then have "strip (norm_text x) \<noteq> []" by simp
  then have "\<not> is_space (last (strip (norm_text x)))" by (rule strip_ends)
  then have "last (norm_text x) \<noteq> 10" by (auto simp: is_space_def)
  then show ?thesis using False by (simp add: looks_numeric_def list_all_iff)
qed

lemma strip_price_label:
  assumes "p \<noteq> []" "\<forall>x\<in>set p. is_price_char x" "strip c = c" "c \<noteq> []"
  shows "strip (p @ u '' '' @ c) = p @ u '' '' @ c"
proof (rule strip_id)
  show "p @ u '' '' @ c \<noteq> []" using assms by simp
  show "\<not> is_space (hd (p @ u '' '' @ c))" using assms(1,2) by (cases p) (auto dest: price_char_not_space)
  have "strip c \<noteq> []" using assms by simp
  then have "\<not> is_space (last (strip c))" by (rule strip_ends)
  then show "\<not> is_space (last (p @ u '' '' @ c))" using assms by simp
qed

lemma fmt_price_flag:
  "fmt_price price c True = to_persian_digits (fmt_price price c False)"
  by (simp add: fmt_price_def Let_def to_persian_digits_map u_def)

subsection \<open>Price formatting\<close>

text \<open>
  Claim C4. A price whose normalised text is empty or the literal \<^verbatim>\<open>-\<close> is formatted
  as exactly \<^verbatim>\<open>-\<close>, for every currency label and either setting of the digit flag.
\<close>
theorem fmt_price_unavailable:
  assumes "norm_text price = [] \<or> norm_text price = u ''-''"
  shows "fmt_price price currency use_persian_digits = u ''-''"
  using assms by (simp add: fmt_price_def)

theorem fmt_price_unavailable_witness:
  "norm_text (PStr (u '' - '')) = u ''-'' \<and> norm_text PNone = [] \<and>
   fmt_price (PStr (u '' - '')) (u ''K'') True = u ''-'' \<and>
   fmt_price PNone (u ''K'') False = u ''-''"
proof -
  have a: "norm_text (PStr (u '' - '')) = u ''-''"
    by (simp add: norm_text_def strip_def is_space_def u_def)
  have b: "norm_text PNone = []" by (simp add: norm_text_def)
  show ?thesis
    using a b fmt_price_unavailable [of "PStr (u '' - '')" "u ''K''" True]
      fmt_price_unavailable [of PNone "u ''K''" False]
    by simp
qed

text \<open>
  Claim C3. For a price whose normalised text is neither empty nor \<^verbatim>\<open>-\<close>, formatting
  with the digit flag set is the digit table applied to the result of formatting with the
  flag unset. The table is applied last, after the label is appended, so for a numeric
  price the digits of the label are translated as well (translation distributes over the
  concatenation), and a label with no ASCII digit is left as it is.
\<close>
theorem fmt_price_flag_translates_last:
  assumes "norm_text price \<noteq> []" and "norm_text price \<noteq> u ''-''"
  shows "fmt_price price currency True = to_persian_digits (fmt_price price currency False) \<and>
    (looks_numeric (norm_text price) \<longrightarrow>
       fmt_price price currency True =
         to_persian_digits (strip (norm_text price @ u '' '' @ currency))) \<and>
    to_persian_digits (a @ currency @ b) =
      to_persian_digits a @ to_persian_digits currency @ to_persian_digits b \<and>
    ((\<forall>c\<in>set currency. \<not> (48 \<le> c \<and> c \<le> 57)) \<longrightarrow> to_persian_digits currency = currency)"
  using assms
  by (simp add: fmt_price_flag to_persian_digits_append to_persian_digits_no_digit)
     (simp add: fmt_price_def)

theorem fmt_price_flag_translates_last_witness:
  "norm_text (PInt 120000) \<noteq> [] \<and> norm_text (PInt 120000) \<noteq> u ''-'' \<and>
   looks_numeric (norm_text (PInt 120000)) \<and>
   fmt_price (PInt 120000) (u ''K2'') False = u ''120000 K2'' \<and>
   fmt_price (PInt 120000) (u ''K2'') True =
     [1777, 1778, 1776, 1776, 1776, 1776] @ u '' K'' @ [1778] \<and>
   to_persian_digits (u ''K'') = u ''K''"
proof -
  have n: "norm_text (PInt 120000) = u ''120000''"
    by (simp add: norm_text_def str_int_def digits10.simps strip_def is_space_def u_def)
  have l: "looks_numeric (u ''120000'')"
    by (simp add: looks_numeric_def is_price_char_def u_def)
  have f: "fmt_price (PInt 120000) (u ''K2'') False = u ''120000 K2''"
    using l by (simp add: fmt_price_def n Let_def strip_def is_space_def u_def)
  have t: "to_persian_digits (u ''120000 K2'') =
      [1777, 1778, 1776, 1776, 1776, 1776] @ u '' K'' @ [1778]"
    by (simp add: to_persian_digits_def translate_def PERSIAN_DIGITS_def u_def)
  have nd: "\<forall>c\<in>set (u ''K''). \<not> (48 \<le> c \<and> c \<le> 57)" by (simp add: u_def)
  have n1: "norm_text (PInt 120000) \<noteq> []" and n2: "norm_text (PInt 120000) \<noteq> u ''-''"
    by (simp_all add: n u_def)
  from fmt_price_flag_translates_last [OF n1 n2, of "u ''K2''" "[]" "[]"]
  have 1: "fmt_price (PInt 120000) (u ''K2'') True =
      to_persian_digits (fmt_price (PInt 120000) (u ''K2'') False)" by simp
  from fmt_price_flag_translates_last [OF n1 n2, of "u ''K''" "[]" "[]"] nd
  have 2: "to_persian_digits (u ''K'') = u ''K''" by simp
  from fmt_price_flag_translates_last
    [OF n1 n2, of "u ''K2''" "[]" "[]", THEN conjunct2, THEN conjunct1] l
  have 3: "fmt_price (PInt 120000) (u ''K2'') True =
      to_persian_digits (strip (norm_text (PInt 120000) @ u '' '' @ u ''K2''))"
    by (simp add: n)
  have s: "strip (norm_text (PInt 120000) @ u '' '' @ u ''K2'') = u ''120000 K2''"
    by (simp add: n) (simp add: strip_def is_space_def u_def)
  show ?thesis using n1 n2 l f 1 2 3 t by (simp add: n s)
qed

lemma currency_of_trimmed:
  "currency_of cafe \<noteq> [] \<and> strip (currency_of cafe) = currency_of cafe"
proof -
  have "default_currency \<noteq> []" "strip default_currency = default_currency"
    by (simp_all add: default_currency_def strip_def is_space_def u_def)
  then show ?thesis by (simp add: currency_of_def Let_def)
qed

text \<open>
  Claim C2, as stated, fails for a label that is empty: the result is trimmed, so the
  price 120000 with the empty label is formatted as \<^verbatim>\<open>120000\<close>, with no space after it.
\<close>
theorem fmt_price_empty_label_counterexample:
  "looks_numeric (norm_text (PInt 120000)) \<and>
   fmt_price (PInt 120000) [] False = u ''120000'' \<and>
   fmt_price (PInt 120000) [] False \<noteq> norm_text (PInt 120000) @ u '' '' @ []"
proof -
  have n: "norm_text (PInt 120000) = u ''120000''"
    by (simp add: norm_text_def str_int_def digits10.simps strip_def is_space_def u_def)
  have l: "looks_numeric (u ''120000'')"
    by (simp add: looks_numeric_def is_price_char_def u_def)
  have f: "fmt_price (PInt 120000) [] False = u ''120000''"
    using l by (simp add: fmt_price_def n Let_def strip_def is_space_def u_def)
  show ?thesis by (simp add: n l f) (simp add: u_def)
qed

text \<open>
  Claim C2, amended. For a price whose normalised text is not empty and consists of ASCII
  digits, the digits U+06F0 to U+06F9 and commas only, the result with the flag unset is
  the price, one space and the label, trimmed. When the label is not empty and has no
  white space at either end, nothing is trimmed: the result is the price, one space, the
  label; with the flag set it is the same text with the digits of both translated. The
  label \<^verbatim>\<open>render_html\<close> passes, \<open>currency_of cafe\<close>, always is of that kind.
\<close>

theorem fmt_price_numeric_appends_label:
  assumes "norm_text price \<noteq> []" and "\<forall>c\<in>set (norm_text price). is_price_char c"
  shows "fmt_price price currency False = strip (norm_text price @ u '' '' @ currency) \<and>
    (currency \<noteq> [] \<and> strip currency = currency \<longrightarrow>
       fmt_price price currency False = norm_text price @ u '' '' @ currency \<and>
       fmt_price price currency True =
         to_persian_digits (norm_text price) @ u '' '' @ to_persian_digits currency) \<and>
    currency_of cafe \<noteq> [] \<and> strip (currency_of cafe) = currency_of cafe"
proof -
  have l: "looks_numeric (norm_text price)" using assms by (simp add: looks_numeric_norm)
  have d: "norm_text price \<noteq> u ''-''" using assms(2) by (auto simp: is_price_char_def u_def)
  have 1: "fmt_price price currency False = strip (norm_text price @ u '' '' @ currency)"
    using assms(1) l d by (simp add: fmt_price_def)
  have 2: "fmt_price price currency True =
      to_persian_digits (strip (norm_text price @ u '' '' @ currency))"
    using assms(1) l d by (simp add: fmt_price_def)
  have sp: "to_persian_digits (u '' '') = u '' ''"
    by (simp add: to_persian_digits_map u_def)
  show ?thesis
    using 1 2 strip_price_label [OF assms(1) assms(2)] currency_of_trimmed [of cafe]
    by (simp add: to_persian_digits_append sp)
qed

theorem fmt_price_numeric_appends_label_witness:
  "norm_text (PInt 120000) \<noteq> [] \<and> list_all is_price_char (norm_text (PInt 120000)) \<and>
   u ''K'' \<noteq> [] \<and> strip (u ''K'') = u ''K'' \<and>
   fmt_price (PInt 120000) (u ''K'') False = u ''120000 K'' \<and>
   list_all is_price_char (norm_text (PStr [1777, 1778, 1776])) \<and>
   fmt_price (PStr [1777, 1778, 1776]) (u ''K'') False = [1777, 1778, 1776] @ u '' K''"
proof -
  have n: "norm_text (PInt 120000) = u ''120000''"
    by (simp add: norm_text_def str_int_def digits10.simps strip_def is_space_def u_def)
  have m: "norm_text (PStr [1777, 1778, 1776]) = [1777, 1778, 1776]"
    by (simp add: norm_text_def strip_def is_space_def)
  have k: "u ''K'' \<noteq> [] \<and> strip (u ''K'') = u ''K''"
    by (simp add: strip_def is_space_def u_def)
  have pn: "list_all is_price_char (u ''120000'')" by (simp add: is_price_char_def u_def)
  have pm: "list_all is_price_char [1777, 1778, 1776]" by (simp add: is_price_char_def)
  have n1: "norm_text (PInt 120000) \<noteq> []" and m1: "norm_text (PStr [1777, 1778, 1776]) \<noteq> []"
    by (simp_all add: n m u_def)
  have a1: "\<forall>c\<in>set (norm_text (PInt 120000)). is_price_char c"
    and b1: "\<forall>c\<in>set (norm_text (PStr [1777, 1778, 1776])). is_price_char c"
    using pn pm by (simp_all only: n m list_all_iff)
  have 1: "fmt_price (PInt 120000) (u ''K'') False = u ''120000'' @ u '' '' @ u ''K''"
    using fmt_price_numeric_appends_label [OF n1 a1, of "u ''K''", THEN conjunct2] k
    by (simp add: n)
  have 2: "fmt_price (PStr [1777, 1778, 1776]) (u ''K'') False =
      [1777, 1778, 1776] @ u '' '' @ u ''K''"
    using fmt_price_numeric_appends_label [OF m1 b1, of "u ''K''", THEN conjunct2] k
    by (simp add: m)
  show ?thesis using 1 2 k pn pm by (simp add: n m) (simp add: u_def)
qed

subsection \<open>Escaping\<close>

lemma escape_Nil [simp]: "escape [] = []" by (simp add: escape_def)

lemma escape_append [simp]: "escape (a @ b) = escape a @ escape b"
  by (simp add: escape_def)

lemma escape_Cons: "escape (c # s) = escape_char c @ escape s"
  by (simp add: escape_def)

lemma escape_char_nonempty: "escape_char c \<noteq> []"
  by (simp add: escape_char_def u_def)

lemma escape_eq_Nil [simp]: "escape s = [] \<longleftrightarrow> s = []"
  by (cases s) (simp_all add: escape_Cons escape_char_nonempty)

lemma escape_char_no_markup: "x \<in> set (escape_char c) \<Longrightarrow> \<not> is_markup x"
  by (auto simp: escape_char_def is_markup_def u_def split: if_splits)

lemma escape_no_markup: "x \<in> set (escape s) \<Longrightarrow> \<not> is_markup x"
  by (auto simp: escape_def dest: escape_char_no_markup)

lemma escape_plain: "\<forall>c\<in>set s. \<not> is_markup c \<and> c \<noteq> 38 \<Longrightarrow> escape s = s"
  by (induction s) (auto simp: escape_Cons escape_char_def is_markup_def)

subsection \<open>Trimming a template\<close>

lemma dropWhile_frame:
  "dropWhile is_space a \<noteq> [] \<Longrightarrow> dropWhile is_space (a @ r) = dropWhile is_space a @ r"
  by (metis dropWhile_append1 dropWhile_eq_Nil_conv)

lemma card_t0_trim:
  \<open>dropWhile is_space card_t0 = u ''<div class="item">'' @ [10] @ u ''                  ''\<close>
  by (simp add: card_t0_def u_def is_space_def)

lemma card_t4_trim:
  \<open>rev (dropWhile is_space (rev card_t4)) =
     [10] @ u ''                  </div>'' @ [10] @ u ''                </div>''\<close>
  by (simp add: card_t4_def u_def is_space_def)

lemma section_t0_trim:
  \<open>dropWhile is_space section_t0 = u ''<section class="section" id="''\<close>
  by (simp add: section_t0_def u_def is_space_def)

lemma section_t4_trim:
  \<open>rev (dropWhile is_space (rev section_t4)) =
     [10] @ u ''              </div>'' @ [10] @ u ''            </section>''\<close>
  by (simp add: section_t4_def u_def is_space_def)

lemma card_t0_frame: "dropWhile is_space (card_t0 @ r) = dropWhile is_space card_t0 @ r"
  by (rule dropWhile_frame) (simp add: card_t0_trim u_def)

lemma section_t0_frame:
  "dropWhile is_space (section_t0 @ r) = dropWhile is_space section_t0 @ r"
  by (rule dropWhile_frame) (simp add: section_t0_trim u_def)

lemma card_t4_frame:
  "dropWhile is_space (rev card_t4 @ r) = dropWhile is_space (rev card_t4) @ r"
proof (rule dropWhile_frame)
  show "dropWhile is_space (rev card_t4) \<noteq> []"
    using card_t4_trim by (metis append_is_Nil_conv not_Cons_self2 rev.simps(1))
qed

lemma section_t4_frame:
  "dropWhile is_space (rev section_t4 @ r) = dropWhile is_space (rev section_t4) @ r"
proof (rule dropWhile_frame)
  show "dropWhile is_space (rev section_t4) \<noteq> []"
    using section_t4_trim by (metis append_is_Nil_conv not_Cons_self2 rev.simps(1))
qed

lemma render_card_eq:
  "render_card it currency f =
     (let name0 = escape (norm_text (get_default (it_name it) (PStr [])));
          name = (if name0 \<noteq> [] then name0 else default_item_name);
          desc = escape (norm_text (get_default (it_desc it) (PStr [])));
          price = fmt_price (get_default (it_price it) (PStr [])) currency f;
          img = norm_text (get_default (it_img it) (PStr []));
          thumb =
            (if img \<noteq> [] \<and> is_url img then
               u ''<div class=\"thumb\"><img src=\"'' @ escape img @ u ''\" alt=\"'' @ name @
               u ''\"></div>''
             else
               u ''<div class=\"thumb\">'' @
               escape (norm_text (get_default (it_icon it) (PStr default_icon))) @ u ''</div>'');
          desc_html = (if desc \<noteq> [] then u ''<div class=\"desc\">'' @ desc @ u ''</div>'' else [])
      in dropWhile is_space card_t0 @ thumb @ card_t1 @ name @ card_t2 @ escape price @ card_t3 @
         desc_html @ rev (dropWhile is_space (rev card_t4)))"
  by (simp add: render_card_def Let_def strip_def card_t0_frame card_t4_frame)

lemma render_section_eq:
  "render_section idx cat currency f =
     dropWhile is_space section_t0 @ anchor_of idx @ section_t1 @
     escape (norm_text (get_default (cat_title cat) (PStr (default_title idx)))) @ section_t2 @
     escape (norm_text (get_default (cat_hint cat) (PStr []))) @ section_t3 @
     grid_of (map (\<lambda>it. render_card it currency f) (cat_items cat)) @
     rev (dropWhile is_space (rev section_t4))"
  by (simp add: render_section_def Let_def strip_def section_t0_frame section_t4_frame)

subsection \<open>The loops\<close>

lemma cat_pills_loop_eq:
  "cat_pills_loop idx menu acc = acc @ map (\<lambda>(i, cat). cat_pill i cat) (enumerate idx menu)"
  by (induction menu arbitrary: idx acc) simp_all

lemma sections_loop_eq:
  "sections_loop idx menu cur f acc =
     acc @ map (\<lambda>(i, cat). render_section i cat cur f) (enumerate idx menu)"
  by (induction menu arbitrary: idx acc) simp_all

subsection \<open>Contact links\<close>

lemma sublist2_append:
  "sublist [a, b] (xs @ ys) \<longleftrightarrow>
     sublist [a, b] xs \<or> sublist [a, b] ys \<or> (xs \<noteq> [] \<and> ys \<noteq> [] \<and> last xs = a \<and> hd ys = b)"
proof -
  have "(\<exists>xs1 xs2. [a, b] = xs1 @ xs2 \<and> suffix xs1 xs \<and> prefix xs2 ys) \<longleftrightarrow>
      prefix [a, b] ys \<or> suffix [a, b] xs \<or> (suffix [a] xs \<and> prefix [b] ys)"
    (is "?L \<longleftrightarrow> ?R")
  proof
    assume ?L
    then obtain xs1 xs2 where e: "[a, b] = xs1 @ xs2" and s: "suffix xs1 xs" and p: "prefix xs2 ys"
      by blast
    from e have "xs1 = [] \<and> xs2 = [a, b] \<or> xs1 = [a] \<and> xs2 = [b] \<or> xs1 = [a, b] \<and> xs2 = []"
      by (auto simp: Cons_eq_append_conv)
    with s p show ?R by auto
  next
    assume ?R
    then show ?L
    proof (elim disjE conjE)
      assume "prefix [a, b] ys"
      then show ?L by (intro exI [of _ "[]"] exI [of _ "[a, b]"]) simp
    next
      assume "suffix [a, b] xs"
      then show ?L by (intro exI [of _ "[a, b]"] exI [of _ "[]"]) simp
    next
      assume "suffix [a] xs" "prefix [b] ys"
      then show ?L by (intro exI [of _ "[a]"] exI [of _ "[b]"]) simp
    qed
  qed
  moreover have "suffix [a] xs \<longleftrightarrow> xs \<noteq> [] \<and> last xs = a"
    by (cases xs rule: rev_cases) (auto simp: suffix_def)
  moreover have "prefix [b] ys \<longleftrightarrow> ys \<noteq> [] \<and> hd ys = b"
    by (cases ys) auto
  moreover have "prefix [a, b] ys \<Longrightarrow> sublist [a, b] ys" by (rule prefix_imp_sublist)
  moreover have "suffix [a, b] xs \<Longrightarrow> sublist [a, b] xs" by (rule suffix_imp_sublist)
  ultimately show ?thesis unfolding sublist_append by blast
qed

lemma escape_no_lt: "60 \<notin> set (escape s)"
  using escape_no_markup [of 60 s] by (auto simp: is_markup_def)

lemma escape_last_not_lt: "escape s \<noteq> [] \<Longrightarrow> last (escape s) \<noteq> 60"
  using escape_no_lt [of s] last_in_set [of "escape s"] by metis

lemma no_lt_no_tag: "60 \<notin> set s \<Longrightarrow> \<not> sublist (60 # p) s"
  by (induction s) (auto simp: sublist_Cons_right)

lemma text_row_no_anchor:
  \<open>\<not> sublist (u ''<a'')
      (u ''<div class="row"><b>'' @ escape label @ u '':</b> '' @ escape val @ u ''</div>'')\<close>
proof -
  have u: "u ''<a'' = [60, 97]" by (simp add: u_def)
  have e: "\<not> sublist [60, 97] (escape s)" for s
    by (rule no_lt_no_tag) (rule escape_no_lt)
  have l: "escape s = [] \<or> last (escape s) \<noteq> 60" for s
    using escape_last_not_lt by blast
  have 1: \<open>\<not> sublist [60, 97] (u ''<div class="row"><b>'')\<close>
    by (simp add: u_def sublist_Cons_right)
  have 2: \<open>\<not> sublist [60, 97] (u '':</b> '')\<close>
    by (simp add: u_def sublist_Cons_right)
  have 3: \<open>\<not> sublist [60, 97] (u ''</div>'')\<close>
    by (simp add: u_def sublist_Cons_right)
  have 4: \<open>last (u ''<div class="row"><b>'') \<noteq> 60\<close> \<open>last (u '':</b> '') \<noteq> 60\<close>
    by (simp_all add: u_def)
  have 5: \<open>last (u '':</b> '' @ r) = 60 \<longleftrightarrow> r \<noteq> [] \<and> last r = 60\<close> for r
    using 4 by (cases "r = []") simp_all
  have 6: \<open>hd (u ''</div>'') \<noteq> 97\<close> by (simp add: u_def)
  show ?thesis
    unfolding u
    using e [of label] e [of val] l [of label] l [of val] 1 2 3 4 5 6
    by (auto simp: sublist2_append)
qed

text \<open>
  Claim C5, as stated, fails on the attributes of the anchor: for the value
  \<^verbatim>\<open>https://t.me/cafe\<close> the anchor carries \<^verbatim>\<open>rel="noopener"\<close> and nothing that keeps the
  referrer back (no \<^verbatim>\<open>noreferrer\<close>, no \<^verbatim>\<open>referrerpolicy\<close>).
\<close>
theorem link_or_text_rel_counterexample:
  \<open>is_url (u ''https://t.me/cafe'') \<and>
   link_or_text (u ''Telegram'') (u ''https://t.me/cafe'') =
     u ''<div class="row"><b>Telegram:</b> <a href="https://t.me/cafe" target="_blank" rel="noopener">https://t.me/cafe</a></div>'' \<and>
   \<not> sublist (u ''noreferrer'') (link_or_text (u ''Telegram'') (u ''https://t.me/cafe'')) \<and>
   \<not> sublist (u ''referrerpolicy'') (link_or_text (u ''Telegram'') (u ''https://t.me/cafe''))\<close>
proof -
  have i: "is_url (u ''https://t.me/cafe'')"
    by (simp add: is_url_def strip_def is_space_def ieq_def u_def)
  have e: "escape (u ''https://t.me/cafe'') = u ''https://t.me/cafe''"
    by (rule escape_plain) (simp add: u_def is_markup_def)
  have l: "escape (u ''Telegram'') = u ''Telegram''"
    by (rule escape_plain) (simp add: u_def is_markup_def)
  have n: "u ''https://t.me/cafe'' \<noteq> []" by (simp add: u_def)
  have o: \<open>link_or_text (u ''Telegram'') (u ''https://t.me/cafe'') =
     u ''<div class="row"><b>Telegram:</b> <a href="https://t.me/cafe" target="_blank" rel="noopener">https://t.me/cafe</a></div>''\<close>
    using i n by (simp add: link_or_text_def Let_def e l) (simp add: u_def)
  show ?thesis
    unfolding o using i by (simp add: u_def sublist_Cons_right)
qed

text \<open>
  Claim C5, amended. For every label and normalised value: an empty value gives the empty
  string; a value that matches \<^verbatim>\<open>^https?://\<close> without regard to case gives a row with an
  anchor whose \<^verbatim>\<open>href\<close> is the escaped value (the value itself when it has no
  \<^verbatim>\<open>&\<close>, \<^verbatim>\<open><\<close>, \<^verbatim>\<open>>\<close> or quote), with \<^verbatim>\<open>target="_blank"\<close> and \<^verbatim>\<open>rel="noopener"\<close>;
  any other value gives a row of escaped text in which no \<^verbatim>\<open><a\<close> occurs.
\<close>
theorem link_or_text_cases:
  \<open>(val = [] \<longrightarrow> link_or_text label val = []) \<and>
   (is_url val \<longrightarrow>
      link_or_text label val =
        u ''<div class="row"><b>'' @ escape label @ u '':</b> <a href="'' @ escape val @
        u ''" target="_blank" rel="noopener">'' @ escape val @ u ''</a></div>'' \<and>
      ((\<forall>c\<in>set val. \<not> is_markup c \<and> c \<noteq> 38) \<longrightarrow> escape val = val)) \<and>
   (val \<noteq> [] \<and> \<not> is_url val \<longrightarrow>
      link_or_text label val =
        u ''<div class="row"><b>'' @ escape label @ u '':</b> '' @ escape val @ u ''</div>'' \<and>
      \<not> sublist (u ''<a'') (link_or_text label val))\<close>
proof -
  have "is_url [] = False" by (simp add: is_url_def u_def)
  then have n: "is_url val \<Longrightarrow> val \<noteq> []" by auto
  show ?thesis
    using n text_row_no_anchor [of label val]
    by (auto simp: link_or_text_def Let_def escape_plain)
qed

theorem link_or_text_cases_witness:
  \<open>norm_text (PStr (u ''  '')) = [] \<and> link_or_text (u ''Telegram'') (norm_text (PStr (u ''  ''))) = [] \<and>
   is_url (u ''HTTPS://t.me/a?b&c'') \<and>
   link_or_text (u ''Telegram'') (u ''HTTPS://t.me/a?b&c'') =
     u ''<div class="row"><b>Telegram:</b> <a href="HTTPS://t.me/a?b&amp;c" target="_blank" rel="noopener">HTTPS://t.me/a?b&amp;c</a></div>'' \<and>
   is_url (u ''https://t.me/cafe'') \<and>
   list_all (\<lambda>c. \<not> is_markup c \<and> c \<noteq> 38) (u ''https://t.me/cafe'') \<and>
   escape (u ''https://t.me/cafe'') = u ''https://t.me/cafe'' \<and>
   u ''@cafe'' \<noteq> [] \<and> \<not> is_url (u ''@cafe'') \<and>
   link_or_text (u ''Telegram'') (u ''@cafe'') = u ''<div class="row"><b>Telegram:</b> @cafe</div>'' \<and>
   \<not> sublist (u ''<a'') (link_or_text (u ''Telegram'') (u ''@cafe''))\<close>
proof -
  have b': "is_url (u ''https://t.me/cafe'')"
    by (simp add: is_url_def strip_def is_space_def ieq_def u_def)
  have pl: "list_all (\<lambda>c. \<not> is_markup c \<and> c \<noteq> 38) (u ''https://t.me/cafe'')"
    by (simp add: is_markup_def u_def)
  have 5: "escape (u ''https://t.me/cafe'') = u ''https://t.me/cafe''"
    using link_or_text_cases [of "u ''https://t.me/cafe''" "u ''Telegram''"] b' pl
    by (simp only: list_all_iff)
  have a: "norm_text (PStr (u ''  '')) = []"
    by (simp add: norm_text_def strip_def is_space_def u_def)
  have b: "is_url (u ''HTTPS://t.me/a?b&c'')"
    by (simp add: is_url_def strip_def is_space_def ieq_def u_def)
  have c: "u ''@cafe'' \<noteq> []" "\<not> is_url (u ''@cafe'')"
    by (simp_all add: is_url_def strip_def is_space_def ieq_def u_def)
  have e1: "escape (u ''HTTPS://t.me/a?b&c'') = u ''HTTPS://t.me/a?b&amp;c''"
    by (simp add: escape_def escape_char_def u_def)
  have e2: "escape (u ''@cafe'') = u ''@cafe''" "escape (u ''Telegram'') = u ''Telegram''"
    by (simp_all add: escape_def escape_char_def u_def)
  have 1: "link_or_text (u ''Telegram'') (norm_text (PStr (u ''  ''))) = []"
    using link_or_text_cases [of "norm_text (PStr (u ''  ''))" "u ''Telegram''"] a by simp
  have 2: \<open>link_or_text (u ''Telegram'') (u ''HTTPS://t.me/a?b&c'') =
     u ''<div class="row"><b>Telegram:</b> <a href="HTTPS://t.me/a?b&amp;c" target="_blank" rel="noopener">HTTPS://t.me/a?b&amp;c</a></div>''\<close>
    using link_or_text_cases [of "u ''HTTPS://t.me/a?b&c''" "u ''Telegram''"] b
    by (simp add: e1 e2) (simp add: u_def)
  note t = link_or_text_cases [of "u ''@cafe''" "u ''Telegram''", THEN conjunct2, THEN conjunct2]
  have 3: \<open>link_or_text (u ''Telegram'') (u ''@cafe'') = u ''<div class="row"><b>Telegram:</b> @cafe</div>''\<close>
    using t c by (simp add: e2) (simp add: u_def)
  have 4: \<open>\<not> sublist (u ''<a'') (link_or_text (u ''Telegram'') (u ''@cafe''))\<close>
    using t c by blast
  show ?thesis using a b b' pl c 1 2 3 4 5 by simp
qed

subsection \<open>Anchors\<close>

lemma digits10_value: "foldl (\<lambda>a d. 10 * a + (d - 48)) 0 (digits10 n) = n"
proof (induction n rule: digits10.induct)
  case (1 n)
  show ?case
  proof (cases "n < 10")
    case True
    then show ?thesis by (subst digits10.simps) simp
  next
    case False
    with 1 show ?thesis by (subst digits10.simps) simp
  qed
qed

lemma digits10_inj: "digits10 i = digits10 j \<longleftrightarrow> i = j"
  by (metis digits10_value)

lemma digits10_nonempty: "digits10 n \<noteq> []"
  by (subst digits10.simps) simp

lemma digits10_last: "48 \<le> last (digits10 n) \<and> last (digits10 n) \<le> 57"
proof -
  have "n mod 10 \<le> 9" by arith
  then show ?thesis by (simp add: digits10.simps [of n])
qed

lemma sublist_here: "sublist x (x @ r)"
  using sublist_appendI [of x "[]" r] by simp

lemma sublist_later: "sublist x r \<Longrightarrow> sublist x (a @ r)"
  by (metis sublist_def append.assoc)

text \<open>
  Claim C6, as stated, fails on the names: the anchor of the first category is
  \<^verbatim>\<open>cat-1\<close>, not \<^verbatim>\<open>category-1\<close>, in the pill and in the section alike.
\<close>
theorem anchor_name_counterexample:
  \<open>anchor_of 1 = u ''cat-1'' \<and> anchor_of 1 \<noteq> u ''category-1'' \<and>
   cat_pills_loop 1 [\<lparr>cat_title = Some (PStr (u ''Tea'')), cat_hint = None, cat_items = []\<rparr>] [] =
     [u ''<a class="pill" href="#cat-1"><strong>Tea</strong></a>''] \<and>
   prefix (u ''<section class="section" id="cat-1">'')
     (hd (sections_loop 1
        [\<lparr>cat_title = Some (PStr (u ''Tea'')), cat_hint = None, cat_items = []\<rparr>] (u ''K'') False []))\<close>
proof -
  have a: "anchor_of 1 = u ''cat-1''" by (simp add: anchor_of_def digits10.simps u_def)
  then have a': "anchor_of (Suc 0) = u ''cat-1''" by simp
  have t: "norm_text (PStr (u ''Tea'')) = u ''Tea''"
    by (simp add: norm_text_def strip_def is_space_def u_def)
  have e: "escape (u ''Tea'') = u ''Tea''" by (simp add: escape_def escape_char_def u_def)
  have p: \<open>cat_pill 1 \<lparr>cat_title = Some (PStr (u ''Tea'')), cat_hint = None, cat_items = []\<rparr> =
      u ''<a class="pill" href="#cat-1"><strong>Tea</strong></a>''\<close>
    by (simp add: cat_pill_def get_default_def a a' t e) (simp add: u_def)
  have s: \<open>prefix (u ''<section class="section" id="cat-1">'')
      (render_section 1 \<lparr>cat_title = Some (PStr (u ''Tea'')), cat_hint = None, cat_items = []\<rparr>
         (u ''K'') False)\<close>
    by (simp add: render_section_eq section_t0_trim a a' section_t1_def) (simp add: u_def)
  show ?thesis using p s by (simp add: a a') (simp add: u_def)
qed

text \<open>
  Claim C6, amended. The pills and the sections are those of the categories in the order
  of the input, each built from the 1-based position of its category; the pill of a
  category links to, and its section is identified by, the anchor \<^verbatim>\<open>cat-\<close> followed by
  the position in decimal, so distinct positions have distinct anchors; and the document
  holds the pills and the sections joined in that order. None of this reads the clock.
\<close>
theorem anchors_follow_input_order:
  \<open>cat_pills_loop 1 menu [] = map (\<lambda>(idx, cat). cat_pill idx cat) (enumerate 1 menu) \<and>
   sections_loop 1 menu currency f [] =
     map (\<lambda>(idx, cat). render_section idx cat currency f) (enumerate 1 menu) \<and>
   prefix (u ''<a class="pill" href="#'' @ anchor_of idx @ u ''">'') (cat_pill idx cat) \<and>
   prefix (u ''<section class="section" id="'' @ anchor_of idx @ u ''">'')
     (render_section idx cat currency f) \<and>
   anchor_of idx = u ''cat-'' @ digits10 idx \<and>
   (anchor_of i = anchor_of j \<longleftrightarrow> i = j) \<and>
   sublist (join [10] (cat_pills_loop 1 (d_menu data) [])) (render_html data t f ts) \<and>
   sublist (join [10, 10] (sections_loop 1 (d_menu data) (currency_of (d_cafe data)) f []))
     (render_html data t f ts)\<close>
proof -
  have 1: \<open>prefix (u ''<a class="pill" href="#'' @ anchor_of idx @ u ''">'') (cat_pill idx cat)\<close>
    by (simp add: cat_pill_def u_def)
  have 2: \<open>prefix (u ''<section class="section" id="'' @ anchor_of idx @ u ''">'')
     (render_section idx cat currency f)\<close>
    by (simp add: render_section_eq section_t0_trim section_t1_def)
  have 3: "sublist (join [10] (cat_pills_loop 1 (d_menu data) [])) (render_html data t f ts)"
    unfolding render_html_def Let_def
    by (rule sublist_here | rule sublist_later)+
  have 4: "sublist (join [10, 10] (sections_loop 1 (d_menu data) (currency_of (d_cafe data)) f []))
     (render_html data t f ts)"
    unfolding render_html_def Let_def
    by (rule sublist_here | rule sublist_later)+
  show ?thesis
    using 1 2 3 4 by (simp add: cat_pills_loop_eq sections_loop_eq anchor_of_def digits10_inj)
qed

subsection \<open>Empty categories\<close>

lemma empty_grid_card_one_card:
  \<open>occurrences (u ''<div class="item">'') empty_grid_card = 1 \<and>
   sublist ([1601, 1593, 1604, 1575, 1611] @ u '' '' @ [1570, 1740, 1578, 1605, 1740] @ u '' '' @
            [1579, 1576, 1578] @ u '' '' @ [1606, 1588, 1583, 1607] @ u ''.'') empty_grid_card\<close>
  by (simp add: empty_grid_card_def u_def sublist_Cons_right)

text \<open>
  Claim C7. For a category with no item, no item card is built and the grid of its section
  is the placeholder card: one card (one \<^verbatim>\<open><div class="item">\<close>), which carries the
  message that no item is registered yet; the section holds it between the opening and
  the closing of its grid, so the grid is never empty.
\<close>
theorem empty_category_renders_placeholder:
  assumes "cat_items cat = []"
  shows \<open>map (\<lambda>it. render_card it currency f) (cat_items cat) = [] \<and>
    grid_of (map (\<lambda>it. render_card it currency f) (cat_items cat)) = empty_grid_card \<and>
    render_section idx cat currency f =
      u ''<section class="section" id="'' @ anchor_of idx @ section_t1 @
      escape (norm_text (get_default (cat_title cat) (PStr (default_title idx)))) @ section_t2 @
      escape (norm_text (get_default (cat_hint cat) (PStr []))) @
      u ''</div>'' @ [10] @ u ''              </div>'' @ [10] @
      u ''              <div class="grid">'' @ [10] @ u ''                '' @
      empty_grid_card @
      [10] @ u ''              </div>'' @ [10] @ u ''            </section>'' \<and>
    occurrences (u ''<div class="item">'') empty_grid_card = 1 \<and>
    sublist ([1601, 1593, 1604, 1575, 1611] @ u '' '' @ [1570, 1740, 1578, 1605, 1740] @ u '' '' @
             [1579, 1576, 1578] @ u '' '' @ [1606, 1588, 1583, 1607] @ u ''.'') empty_grid_card\<close>
  using assms empty_grid_card_one_card
  by (simp add: render_section_eq grid_of_def section_t0_trim section_t4_trim section_t3_def)

theorem empty_category_renders_placeholder_witness:
  \<open>cat_items \<lparr>cat_title = Some (PStr (u ''Tea'')), cat_hint = None, cat_items = []\<rparr> = [] \<and>
   grid_of (map (\<lambda>it. render_card it (u ''K'') False)
     (cat_items \<lparr>cat_title = Some (PStr (u ''Tea'')), cat_hint = None, cat_items = []\<rparr>)) =
     empty_grid_card \<and>
   render_section 1 \<lparr>cat_title = Some (PStr (u ''Tea'')), cat_hint = None, cat_items = []\<rparr>
     (u ''K'') False =
     u ''<section class="section" id="cat-1">'' @ [10] @
     u ''              <div class="section-title">'' @ [10] @
     u ''                <h2>Tea</h2>'' @ [10] @
     u ''                <div class="hint"></div>'' @ [10] @
     u ''              </div>'' @ [10] @
     u ''              <div class="grid">'' @ [10] @
     u ''                '' @ empty_grid_card @ [10] @
     u ''              </div>'' @ [10] @
     u ''            </section>''\<close>
proof -
  let ?c = "\<lparr>cat_title = Some (PStr (u ''Tea'')), cat_hint = None, cat_items = []\<rparr>"
  have i: "cat_items ?c = []" by simp
  have a: "anchor_of 1 = u ''cat-1''" by (simp add: anchor_of_def digits10.simps u_def)
  then have a': "anchor_of (Suc 0) = u ''cat-1''" by simp
  have t: "norm_text (PStr (u ''Tea'')) = u ''Tea''" "norm_text (PStr []) = []"
    by (simp_all add: norm_text_def strip_def is_space_def u_def)
  have e: "escape (u ''Tea'') = u ''Tea''" by (simp add: escape_def escape_char_def u_def)
  note th = empty_category_renders_placeholder [OF i, of "u ''K''" False 1]
  have g: "grid_of (map (\<lambda>it. render_card it (u ''K'') False) (cat_items ?c)) = empty_grid_card"
    using th by blast
  have r: \<open>render_section 1 ?c (u ''K'') False =
      u ''<section class="section" id="'' @ anchor_of 1 @ section_t1 @
      escape (norm_text (get_default (cat_title ?c) (PStr (default_title 1)))) @ section_t2 @
      escape (norm_text (get_default (cat_hint ?c) (PStr []))) @
      u ''</div>'' @ [10] @ u ''              </div>'' @ [10] @
      u ''              <div class="grid">'' @ [10] @ u ''                '' @
      empty_grid_card @
      [10] @ u ''              </div>'' @ [10] @ u ''            </section>''\<close>
    using th by blast
  show ?thesis
    unfolding r using g
    by (simp add: a a' t e get_default_def section_t1_def section_t2_def) (simp add: u_def)
qed

subsection \<open>Category titles\<close>

lemma norm_text_default_title: "norm_text (PStr (default_title idx)) = default_title idx"
proof -
  have "strip (default_title idx) = default_title idx"
  proof (rule strip_id)
    show "default_title idx \<noteq> []" by (simp add: default_title_def)
    show "\<not> is_space (hd (default_title idx))" by (simp add: default_title_def is_space_def)
    have "last (default_title idx) = last (digits10 idx)"
      by (simp add: default_title_def digits10_nonempty)
    then show "\<not> is_space (last (default_title idx))"
      using digits10_last [of idx] by (auto simp: is_space_def)
  qed
  then show ?thesis by (simp add: norm_text_def)
qed

lemma cat_pill_eq:
  \<open>cat_pill idx cat =
     u ''<a class="pill" href="#'' @ anchor_of idx @ u ''"><strong>'' @
     escape (case cat_title cat of None \<Rightarrow> default_title idx | Some v \<Rightarrow> norm_text v) @
     u ''</strong></a>''\<close>
  by (simp add: cat_pill_def get_default_def norm_text_default_title split: option.split)

text \<open>
  Claim C8 on the code: the pill of a category at position 2 whose title is present but
  empty (the empty string, white space only, or \<^verbatim>\<open>null\<close>) has an empty label; only an
  absent title gives the generated label, the word for category followed by 2.
\<close>
theorem cat_pill_empty_title_label:
  \<open>cat_pill 2 \<lparr>cat_title = Some (PStr []), cat_hint = None, cat_items = []\<rparr> =
     u ''<a class="pill" href="#cat-2"><strong></strong></a>'' \<and>
   cat_pill 2 \<lparr>cat_title = Some (PStr (u ''   '')), cat_hint = None, cat_items = []\<rparr> =
     u ''<a class="pill" href="#cat-2"><strong></strong></a>'' \<and>
   cat_pill 2 \<lparr>cat_title = Some PNone, cat_hint = None, cat_items = []\<rparr> =
     u ''<a class="pill" href="#cat-2"><strong></strong></a>'' \<and>
   cat_pill 2 \<lparr>cat_title = None, cat_hint = None, cat_items = []\<rparr> =
     u ''<a class="pill" href="#cat-2"><strong>'' @ [1583, 1587, 1578, 1607] @ u '' 2'' @
     u ''</strong></a>''\<close>
proof -
  have a: "anchor_of 2 = u ''cat-2''" by (simp add: anchor_of_def digits10.simps u_def)
  have n: "norm_text (PStr []) = []" "norm_text (PStr (u ''   '')) = []" "norm_text PNone = []"
    by (simp_all add: norm_text_def strip_def is_space_def u_def)
  have d: "default_title 2 = [1583, 1587, 1578, 1607] @ u '' 2''"
    by (simp add: default_title_def digits10.simps u_def)
  show ?thesis
    by (simp add: cat_pill_eq a n d) (simp add: u_def escape_def escape_char_def)
qed

subsection \<open>The clock\<close>

lemma ex_pre_here: "\<exists>pre. \<forall>x. q x = pre @ q x"
  by (rule exI [of _ "[]"]) simp

lemma ex_pre_later: "\<exists>pre. \<forall>x. r x = pre @ q x \<Longrightarrow> \<exists>pre. \<forall>x. a @ r x = pre @ q x"
proof -
  assume "\<exists>pre. \<forall>x. r x = pre @ q x"
  then obtain pre where "\<forall>x. r x = pre @ q x" ..
  then have "\<forall>x. a @ r x = (a @ pre) @ q x" by simp
  then show ?thesis ..
qed

text \<open>
  Claim C9. The reading of the clock is the one input of \<^verbatim>\<open>render_html\<close> that is not
  an argument. For given data, page title and digit flag, the document is a fixed text,
  the same for every reading of the clock, followed by the footer in which the reading
  stands escaped: two runs on the same arguments differ in that one place at most.
\<close>
theorem render_html_depends_on_clock_in_footer_only:
  "\<exists>pre. \<forall>generated_at.
     render_html data page_title use_persian_digits generated_at =
       pre @ html_t14 @ escape generated_at @ html_t15"
  unfolding render_html_def Let_def
  by (rule ex_pre_here | rule ex_pre_later)+

subsection \<open>The phone row\<close>





subsection \<open>Markup characters of the document\<close>

lemma markup_of_Nil [simp]: "markup_of [] = []" by (simp add: markup_of_def)

lemma markup_of_append [simp]: "markup_of (a @ b) = markup_of a @ markup_of b"
  by (simp add: markup_of_def)

lemma markup_of_escape [simp]: "markup_of (escape s) = []"
  by (auto simp: markup_of_def filter_empty_conv dest: escape_no_markup)

lemma markup_of_digits10 [simp]: "markup_of (digits10 n) = []"
proof (induction n rule: digits10.induct)
  case (1 n)
  have "n mod 10 \<le> 9" by arith
  with 1 show ?case
    by (subst digits10.simps) (auto simp: markup_of_def is_markup_def)
qed

lemma markup_of_anchor [simp]: "markup_of (anchor_of idx) = []"
  by (simp add: anchor_of_def) (simp add: markup_of_def is_markup_def u_def)

lemma markup_of_join:
  "markup_of sep = [] \<Longrightarrow> markup_of (join sep xs) = concat (map markup_of xs)"
  by (induction sep xs rule: join.induct) simp_all

lemma markup_of_newlines [simp]: "markup_of [10] = []" "markup_of [10, 10] = []"
  by (simp_all add: markup_of_def is_markup_def)

lemma markup_of_defaults [simp]:
  "markup_of default_item_name = []" "markup_of address_prompt = []"
  by (simp_all add: default_item_name_def address_prompt_def markup_of_def is_markup_def u_def)

lemma kind_of_Nil [simp]: "kind_of s = [] \<longleftrightarrow> s = []"
  by (simp add: kind_of_def u_def)

lemma is_url_kind_of [simp]: "is_url (kind_of s) = is_url s"
proof -
  have "\<not> is_url []" "is_url (u ''http://'')" "\<not> is_url (u ''x'')"
    by (simp_all add: is_url_def strip_def is_space_def ieq_def u_def)
  then show ?thesis by (auto simp: kind_of_def)
qed

lemma norm_text_kind_of [simp]: "norm_text (PStr (kind_of s)) = kind_of s"
proof -
  have "strip (u ''http://'') = u ''http://''" "strip (u ''x'') = u ''x''"
    by (simp_all add: strip_def is_space_def u_def)
  then show ?thesis by (simp add: norm_text_def kind_of_def)
qed

lemma norm_text_blank_field [simp]:
  "norm_text (get_default (blank_field v) (PStr [])) = kind_of (norm_text (get_default v (PStr [])))"
  by (simp add: blank_field_def get_default_def)

lemma norm_text_empty [simp]: "norm_text (PStr []) = []"
  by (simp add: norm_text_def)

lemma markup_of_link_or_text [simp]:
  "markup_of (link_or_text label (kind_of val)) = markup_of (link_or_text label val)"
proof -
  have "is_url val \<Longrightarrow> val \<noteq> []" by (auto simp: is_url_def u_def)
  then show ?thesis by (auto simp: link_or_text_def Let_def)
qed

lemma markup_of_phone_row:
  "markup_of (phone_row phone disp) =
     (if phone \<noteq> [] then markup_of phone_row_open @ markup_of (u ''</div>'')
      else markup_of phone_prompt_row)"
  by (simp add: phone_row_def)

lemma markup_of_address_badge [simp]: "markup_of (address_badge a) = []"
  by (simp add: address_badge_def)

lemma markup_of_cat_pill: "markup_of (cat_pill i (blank_category c)) = markup_of (cat_pill j c)"
  by (simp add: cat_pill_def)

lemma markup_of_render_card:
  "markup_of (render_card (blank_item it) cur' f') = markup_of (render_card it cur f)"
  by (simp add: render_card_eq Let_def blank_item_def get_default_def [of None])

lemma markup_of_grid:
  "markup_of (grid_of (map (\<lambda>it. render_card it cur' f') (map blank_item items))) =
   markup_of (grid_of (map (\<lambda>it. render_card it cur f) items))"
proof -
  have "concat (map (\<lambda>it. markup_of (render_card (blank_item it) cur' f')) items) =
      concat (map (\<lambda>it. markup_of (render_card it cur f)) items)"
    by (simp add: markup_of_render_card [of _ cur' f' cur f])
  then show ?thesis
    by (simp add: grid_of_def markup_of_join comp_def)
qed

lemma markup_of_render_section:
  "markup_of (render_section i (blank_category c) cur' f') = markup_of (render_section j c cur f)"
  using markup_of_grid [of cur' f' "cat_items c" cur f]
  by (simp add: render_section_eq blank_category_def)

lemma markup_of_pills:
  "concat (map markup_of (map (\<lambda>(i, c). cat_pill i c) (enumerate k (map blank_category menu)))) =
   concat (map markup_of (map (\<lambda>(i, c). cat_pill i c) (enumerate k menu)))"
proof (induction menu arbitrary: k)
  case Nil
  show ?case by simp
next
  case (Cons c menu)
  show ?case
    using Cons [of "Suc k"] markup_of_cat_pill [of k c k] by simp
qed

lemma markup_of_sections:
  "concat (map markup_of
     (map (\<lambda>(i, c). render_section i c cur' f') (enumerate k (map blank_category menu)))) =
   concat (map markup_of (map (\<lambda>(i, c). render_section i c cur f) (enumerate k menu)))"
proof (induction menu arbitrary: k)
  case Nil
  show ?case by simp
next
  case (Cons c menu)
  show ?case
    using Cons [of "Suc k"] markup_of_render_section [of k c cur' f' k cur f] by simp
qed

lemma markup_of_render_html:
  "markup_of (render_html data t f ts) = markup_of (render_html (blank_data data) [] f' [])"
  using markup_of_pills [of 1 "d_menu data"]
    markup_of_sections [of "currency_of (blank_cafe (d_cafe data))" f' 1 "d_menu data"
      "currency_of (d_cafe data)" f]
  by (simp add: render_html_def Let_def blank_data_def markup_of_join cat_pills_loop_eq
      sections_loop_eq markup_of_phone_row)
     (simp add: blank_cafe_def get_default_def [of None])

subsection \<open>Ampersands\<close>

lemma list_ex_prefix_append:
  "list_ex (\<lambda>e. prefix e a) es \<Longrightarrow> list_ex (\<lambda>e. prefix e (a @ b)) es"
  by (induction es) (auto intro: prefix_prefix)

lemma amp_ok_append: "amp_ok a \<Longrightarrow> amp_ok b \<Longrightarrow> amp_ok (a @ b)"
proof (induction a)
  case Nil
  then show ?case by simp
next
  case (Cons c a)
  from Cons.prems(1) have a: "amp_ok a"
    and c: "c = 38 \<Longrightarrow> list_ex (\<lambda>e. prefix e a) (template_amp # entity_names)"
    by (simp_all split: if_splits)
  have "amp_ok (a @ b)" using Cons.IH a Cons.prems(2) by blast
  moreover have "c = 38 \<Longrightarrow> list_ex (\<lambda>e. prefix e (a @ b)) (template_amp # entity_names)"
    using c by (rule list_ex_prefix_append)
  ultimately show ?case by (simp del: list_ex_Cons_iff)
qed

lemma amp_ok_no_amp: "38 \<notin> set s \<Longrightarrow> amp_ok s"
  by (induction s) auto

lemma amp_ok_escape_char: "amp_ok r \<Longrightarrow> amp_ok (escape_char c @ r)"
  by (simp add: escape_char_def entity_names_def template_amp_def u_def)

lemma amp_ok_escape: "amp_ok (escape s)"
  by (induction s) (simp_all add: escape_Cons amp_ok_escape_char)

lemma amp_ok_join:
  "amp_ok sep \<Longrightarrow> \<forall>x\<in>set xs. amp_ok x \<Longrightarrow> amp_ok (join sep xs)"
  by (induction sep xs rule: join.induct) (simp_all add: amp_ok_append)

lemma no_amp_digits10: "38 \<notin> set (digits10 n)"
proof (induction n rule: digits10.induct)
  case (1 n)
  have "n mod 10 \<le> 9" by arith
  with 1 show ?case by (subst digits10.simps) auto
qed

lemma amp_ok_anchor: "amp_ok (anchor_of idx)"
  by (rule amp_ok_no_amp) (simp add: anchor_of_def no_amp_digits10, simp add: u_def)

lemma amp_ok_card_parts:
  "amp_ok (dropWhile is_space card_t0)" "amp_ok card_t1" "amp_ok card_t2" "amp_ok card_t3"
  "amp_ok (rev (dropWhile is_space (rev card_t4)))" "amp_ok default_item_name"
  by (rule amp_ok_no_amp,
      simp add: card_t0_trim card_t4_trim card_t1_def card_t2_def card_t3_def
        default_item_name_def u_def)+

lemma amp_ok_section_parts:
  "amp_ok (dropWhile is_space section_t0)" "amp_ok section_t1" "amp_ok section_t2"
  "amp_ok section_t3" "amp_ok (rev (dropWhile is_space (rev section_t4)))"
  "amp_ok empty_grid_card"
  by (rule amp_ok_no_amp,
      simp add: section_t0_trim section_t4_trim section_t1_def section_t2_def section_t3_def
        empty_grid_card_def u_def)+

lemma amp_ok_html_parts:
  "amp_ok html_t0" "amp_ok html_t1" "amp_ok html_t3" "amp_ok html_t4" "amp_ok html_t5"
  "amp_ok html_t6" "amp_ok html_t7" "amp_ok html_t8" "amp_ok html_t9" "amp_ok html_t10"
  "amp_ok html_t11" "amp_ok html_t12" "amp_ok html_t13" "amp_ok html_t14" "amp_ok html_t15"
  "amp_ok address_prompt" "amp_ok phone_row_open" "amp_ok phone_prompt_row"
  by (rule amp_ok_no_amp,
      simp add: html_t0_def html_t1_def html_t3_def html_t4_def html_t5_def html_t6_def
        html_t7_def html_t8_def html_t9_def html_t10_def html_t11_def html_t12_def html_t13_def
        html_t14_def html_t15_def address_prompt_def phone_row_open_def phone_prompt_row_def
        u_def)+

lemma amp_ok_html_t2: "amp_ok html_t2"
  by (simp add: html_t2_def u_def entity_names_def template_amp_def)

lemma amp_ok_lit:
  \<open>amp_ok (u ''<div class="row"><b>'')\<close> \<open>amp_ok (u '':</b> <a href="'')\<close>
  \<open>amp_ok (u ''" target="_blank" rel="noopener">'')\<close> \<open>amp_ok (u ''</a></div>'')\<close>
  \<open>amp_ok (u '':</b> '')\<close> \<open>amp_ok (u ''</div>'')\<close>
  \<open>amp_ok (u ''<a class="pill" href="#'')\<close> \<open>amp_ok (u ''"><strong>'')\<close>
  \<open>amp_ok (u ''</strong></a>'')\<close>
  \<open>amp_ok (u ''<div class="thumb"><img src="'')\<close> \<open>amp_ok (u ''" alt="'')\<close>
  \<open>amp_ok (u ''"></div>'')\<close> \<open>amp_ok (u ''<div class="thumb">'')\<close>
  \<open>amp_ok (u ''<div class="desc">'')\<close>
  by (simp_all add: u_def)

lemma amp_ok_link_or_text: "amp_ok (link_or_text label val)"
  by (simp add: link_or_text_def Let_def amp_ok_append amp_ok_escape amp_ok_lit)

lemma amp_ok_phone_row: "amp_ok (phone_row phone disp)"
  by (simp add: phone_row_def amp_ok_append amp_ok_escape amp_ok_lit amp_ok_html_parts)

lemma amp_ok_address_badge: "amp_ok (address_badge a)"
  by (simp add: address_badge_def amp_ok_escape amp_ok_html_parts)

lemma amp_ok_cat_pill: "amp_ok (cat_pill idx cat)"
  by (simp add: cat_pill_def amp_ok_append amp_ok_escape amp_ok_lit amp_ok_anchor)

lemma amp_ok_render_card: "amp_ok (render_card it cur f)"
  by (simp add: render_card_eq Let_def amp_ok_append amp_ok_escape amp_ok_lit amp_ok_card_parts)

lemma amp_ok_grid: "amp_ok (grid_of (map (\<lambda>it. render_card it cur f) items))"
  by (simp add: grid_of_def amp_ok_join amp_ok_render_card amp_ok_section_parts)

lemma amp_ok_render_section: "amp_ok (render_section idx cat cur f)"
  by (simp add: render_section_eq amp_ok_append amp_ok_escape amp_ok_anchor amp_ok_grid
      amp_ok_section_parts)

lemma amp_ok_render_html: "amp_ok (render_html data t f ts)"
proof -
  have p: "amp_ok (join [10] (cat_pills_loop 1 (d_menu data) []))"
    by (rule amp_ok_join) (auto simp: cat_pills_loop_eq amp_ok_cat_pill)
  have s: "amp_ok (join [10, 10] (sections_loop 1 (d_menu data) (currency_of (d_cafe data)) f []))"
    by (rule amp_ok_join) (auto simp: sections_loop_eq amp_ok_render_section)
  show ?thesis
    unfolding render_html_def Let_def
    by (intro amp_ok_append amp_ok_escape amp_ok_html_parts amp_ok_html_t2 amp_ok_link_or_text
        amp_ok_phone_row amp_ok_address_badge p s)
qed

text \<open>
  Claim C1. Every text of the input (the fields of the venue, of the categories and of
  the items, the values and labels of the links, the page title, and the reading of the
  clock) reaches the document through \<^verbatim>\<open>html.escape\<close> only. So the characters
  \<^verbatim>\<open><\<close>, \<^verbatim>\<open>>\<close> and the two quotes of the document are, in number and order, those of
  the document rendered from the same input with every text taken out (\<open>blank_data\<close>,
  an empty page title and an empty clock reading): no input text adds one. And every
  ampersand of the document starts one of the entities \<^verbatim>\<open>html.escape\<close> writes, but
  for the one the template itself has in the address of the font.
\<close>
theorem render_html_markup_from_template_only:
  "markup_of (render_html data page_title use_persian_digits generated_at) =
     markup_of (render_html (blank_data data) [] use_persian_digits []) \<and>
   amp_ok (render_html data page_title use_persian_digits generated_at)"
  using markup_of_render_html amp_ok_render_html by blast

end
